theory Spec2Isabelle
  imports Complex_Main "HOL-Library.Log_Nat" "HOL-Library.AList"
begin

section \<open>Python numbers and strings\<close>

text \<open>
  \<^verbatim>\<open>video_processor.py\<close> mixes Python integers (unbounded, modelled by \<open>int\<close>) with Python
  floats (IEEE 754 binary64).  A float value is modelled by the rational number it denotes.
  Every float operation of the source returns the exact result rounded to the nearest
  binary64 number, ties to even; \<open>fl\<close> is that rounding for values in the normal range
  (overflow, subnormal numbers, NaN and the infinities are outside the model: pixel
  coordinates, frame counts and frame rates never get there).
\<close>

definition py_int :: "rat \<Rightarrow> int" where
  \<comment> \<open>Python's \<^verbatim>\<open>int(f)\<close> on a float: truncation toward zero.\<close>
  "py_int q = (if 0 \<le> q then \<lfloor>q\<rfloor> else \<lceil>q\<rceil>)"

definition py_round :: "rat \<Rightarrow> int" where
  \<comment> \<open>Python's \<^verbatim>\<open>round(f)\<close>: the nearest integer, ties to the even one.\<close>
  "py_round q =
     (let f = \<lfloor>q\<rfloor>; r = q - of_int f
      in if r < 1 / 2 then f else if 1 / 2 < r then f + 1 else if even f then f else f + 1)"

definition ilog2 :: "rat \<Rightarrow> int" where
  \<comment> \<open>The binary exponent of a positive rational: \<open>2 ^ ilog2 a \<le> a < 2 ^ (ilog2 a + 1)\<close>.\<close>
  "ilog2 a =
     (if 1 \<le> a then bitlen \<lfloor>a\<rfloor> - 1
      else (let k = bitlen \<lfloor>1 / a\<rfloor> - 1
            in if a * 2 ^ nat k = 1 then - k else - k - 1))"

definition fl :: "rat \<Rightarrow> rat" where
  \<comment> \<open>Round to the nearest binary64 number (53 significant bits), ties to even.\<close>
  "fl q =
     (if q = 0 then 0
      else (let u = power_int 2 (ilog2 \<bar>q\<bar> - 52)
            in of_int (py_round (q / u)) * u))"

definition digit_char :: "nat \<Rightarrow> char" where
  "digit_char d = ''0123456789'' ! d"

fun str_nat :: "nat \<Rightarrow> string" where
  \<comment> \<open>Python's \<^verbatim>\<open>str(n)\<close> for a non-negative integer: its decimal digits.\<close>
  "str_nat n = (if n < 10 then [digit_char n] else str_nat (n div 10) @ [digit_char (n mod 10)])"

declare str_nat.simps [simp del]

section \<open>Data model\<close>

text \<open>The dataclass \<^verbatim>\<open>FaceBoundingBox\<close> of \<^verbatim>\<open>video_processor.py\<close>.\<close>

record FaceBoundingBox =
  x :: int
  y :: int
  width :: int
  height :: int
  confidence :: rat

text \<open>
  A mask as \<^verbatim>\<open>process_video\<close> and \<^verbatim>\<open>generate_preview\<close> receive it: a dictionary with the keys
  \<^verbatim>\<open>'x'\<close>, \<^verbatim>\<open>'y'\<close>, \<^verbatim>\<open>'width'\<close>, \<^verbatim>\<open>'height'\<close> (read with \<^verbatim>\<open>mask['x']\<close>, so they are present in
  every mask the pipeline accepts) and an optional \<^verbatim>\<open>'confidence'\<close>
  (read with \<^verbatim>\<open>mask.get('confidence', 1.0)\<close>).
\<close>

record mask_dict =
  mask_x :: int
  mask_y :: int
  mask_width :: int
  mask_height :: int
  mask_confidence :: "rat option"

text \<open>
  The keys of \<^verbatim>\<open>masks_data\<close>.  A Python dictionary keeps the integer \<^verbatim>\<open>3\<close> and the string
  \<^verbatim>\<open>'3'\<close> apart: they are different keys.
\<close>

datatype key = IntKey int | StrKey string

type_synonym masks_data = "key \<rightharpoonup> mask_dict list"

text \<open>
  A frame is a \<^verbatim>\<open>numpy\<close> array of shape \<open>(rows, columns, channels)\<close>: a list of rows, each a
  list of pixels.  \<open>shape0\<close> and \<open>shape1\<close> are \<^verbatim>\<open>frame.shape[0]\<close> and \<^verbatim>\<open>frame.shape[1]\<close>.
\<close>

type_synonym 'p frame = "'p list list"

definition shape0 :: "'p frame \<Rightarrow> nat" where
  "shape0 f = length f"

definition shape1 :: "'p frame \<Rightarrow> nat" where
  "shape1 f = (case f of [] \<Rightarrow> 0 | r # _ \<Rightarrow> length r)"

definition rectangular :: "'p frame \<Rightarrow> bool" where
  "rectangular f = list_all (\<lambda>r. length r = shape1 f) f"

section \<open>Array slices\<close>

text \<open>
  A slice bound \<open>i\<close> on an axis of length \<open>n\<close>, as Python and \<^verbatim>\<open>numpy\<close> normalise it: a
  negative bound counts from the end of the axis, and the result is clamped to \<open>[0, n]\<close>.
\<close>

definition slice_index :: "int \<Rightarrow> nat \<Rightarrow> nat" where
  "slice_index i n = (if i < 0 then nat (max 0 (i + int n)) else min (nat i) n)"

definition py_slice :: "int \<Rightarrow> int \<Rightarrow> 'a list \<Rightarrow> 'a list" where
  \<comment> \<open>\<^verbatim>\<open>xs[i:j]\<close>\<close>
  "py_slice i j xs =
     (let lo = slice_index i (length xs); hi = slice_index j (length xs)
      in take (hi - lo) (drop lo xs))"

definition slice2 :: "int \<Rightarrow> int \<Rightarrow> int \<Rightarrow> int \<Rightarrow> 'p frame \<Rightarrow> 'p frame" where
  \<comment> \<open>\<^verbatim>\<open>a[y1:y2, x1:x2]\<close>\<close>
  "slice2 y1 y2 x1 x2 a = map (py_slice x1 x2) (py_slice y1 y2 a)"

definition array_size :: "'p frame \<Rightarrow> nat" where
  \<comment> \<open>\<^verbatim>\<open>a.size\<close>, up to the (positive) number of channels\<close>
  "array_size a = shape0 a * shape1 a"

definition in_slice :: "int \<Rightarrow> int \<Rightarrow> nat \<Rightarrow> nat \<Rightarrow> bool" where
  \<comment> \<open>position \<open>k\<close> of an axis of length \<open>n\<close> belongs to the slice \<^verbatim>\<open>i:j\<close>\<close>
  "in_slice i j n k = (slice_index i n \<le> k \<and> k < slice_index j n)"

definition assign_slice2 ::
  "int \<Rightarrow> int \<Rightarrow> int \<Rightarrow> int \<Rightarrow> 'p frame \<Rightarrow> 'p frame \<Rightarrow> 'p frame" where
  \<comment> \<open>\<^verbatim>\<open>a[y1:y2, x1:x2] = b\<close> for \<open>b\<close> of the shape of the slice: position \<open>(r, c)\<close> of the
      slice receives the element of \<open>b\<close> at its offset in the slice, every other position
      keeps its value.\<close>
  "assign_slice2 y1 y2 x1 x2 a b =
     map (\<lambda>r. map (\<lambda>c.
            if in_slice y1 y2 (shape0 a) r \<and> in_slice x1 x2 (shape1 a) c
            then b ! (r - slice_index y1 (shape0 a)) ! (c - slice_index x1 (shape1 a))
            else a ! r ! c)
          [0..<length (a ! r)])
       [0..<length a]"

section \<open>Region blur: \<^verbatim>\<open>apply_blur_to_frame\<close>\<close>

text \<open>
  \<^verbatim>\<open>cv2.GaussianBlur(roi, (k, k), 0)\<close> is a library function.  It is a parameter of the model:
  \<open>gb k roi r c\<close> is the pixel at row \<open>r\<close> and column \<open>c\<close> of its result.  OpenCV returns an
  array of the size of its input, so the result is built over the positions of \<open>roi\<close>.
\<close>

type_synonym 'p gaussian = "int \<Rightarrow> 'p frame \<Rightarrow> nat \<Rightarrow> nat \<Rightarrow> 'p"

definition GaussianBlur :: "'p gaussian \<Rightarrow> 'p frame \<Rightarrow> int \<Rightarrow> 'p frame" where
  "GaussianBlur gb roi k =
     map (\<lambda>r. map (\<lambda>c. gb k roi r c) [0..<shape1 roi]) [0..<shape0 roi]"

definition kernel_size :: "int \<Rightarrow> int" where
  "kernel_size blur_strength = max 3 (blur_strength * 2 + 1)"

definition blur_mask ::
  "'p gaussian \<Rightarrow> int \<Rightarrow> nat \<Rightarrow> nat \<Rightarrow> 'p frame \<Rightarrow> FaceBoundingBox \<Rightarrow> 'p frame" where
  \<comment> \<open>The body of the loop over \<^verbatim>\<open>masks\<close>; \<open>h\<close> and \<open>w\<close> are \<^verbatim>\<open>frame.shape[0]\<close> and
      \<^verbatim>\<open>frame.shape[1]\<close> of the input frame, \<open>result_frame\<close> is the working copy.\<close>
  "blur_mask gb blur_strength h w result_frame m =
     (let x1 = max 0 (x m);
          y1 = max 0 (y m);
          x2 = min (int w) (x m + width m);
          y2 = min (int h) (y m + height m);
          roi = slice2 y1 y2 x1 x2 result_frame
      in if array_size roi > 0
         then assign_slice2 y1 y2 x1 x2 result_frame
                (GaussianBlur gb roi (kernel_size blur_strength))
         else result_frame)"

definition apply_blur_to_frame ::
  "'p gaussian \<Rightarrow> 'p frame \<Rightarrow> FaceBoundingBox list \<Rightarrow> int \<Rightarrow> 'p frame" where
  "apply_blur_to_frame gb frame masks blur_strength =
     (if masks = [] then frame
      else foldl (blur_mask gb blur_strength (shape0 frame) (shape1 frame)) frame masks)"

section \<open>Video sources and sinks\<close>

datatype error = FileNotFoundError | ValueError | ZeroDivisionError | CvError | DetectorError

text \<open>
  What a call needs to know of the file system and of OpenCV: whether the input path exists,
  whether \<^verbatim>\<open>cv2.VideoCapture\<close> opens it, the properties the container reports, and the frames
  that successive calls of \<^verbatim>\<open>cap.read()\<close> yield before \<^verbatim>\<open>ret\<close> is false.  The reported
  \<open>src_frame_count\<close> is independent of the number of frames that can be read.
\<close>

record 'p source =
  src_exists :: bool
  src_opened :: bool
  src_fps :: rat
  src_frame_count :: int
  src_width :: int
  src_height :: int
  src_frames :: "'p frame list"

text \<open>
  The observable effects of a run: the frames appended to the output file, in order, the
  number of frames \<^verbatim>\<open>cap.read()\<close> has yielded, and the values passed to
  \<^verbatim>\<open>progress_callback\<close>, in call order.
\<close>

record 'p io =
  written :: "'p frame list"
  frames_read :: nat
  progress :: "rat list"

definition io0 :: "'p io" where
  "io0 = \<lparr>written = [], frames_read = 0, progress = []\<rparr>"

definition get_masks :: "masks_data \<Rightarrow> nat \<Rightarrow> mask_dict list" where
  \<comment> \<open>\<^verbatim>\<open>masks_data.get(str(frame_number), [])\<close>\<close>
  "get_masks masks_data frame_number =
     (case masks_data (StrKey (str_nat frame_number)) of None \<Rightarrow> [] | Some ms \<Rightarrow> ms)"

definition mask_box :: "mask_dict \<Rightarrow> FaceBoundingBox" where
  \<comment> \<open>the conversion in \<^verbatim>\<open>process_video\<close>\<close>
  "mask_box d =
     \<lparr>x = mask_x d, y = mask_y d, width = mask_width d, height = mask_height d,
      confidence = (case mask_confidence d of None \<Rightarrow> 1 | Some c \<Rightarrow> c)\<rparr>"

definition mask_box_preview :: "mask_dict \<Rightarrow> FaceBoundingBox" where
  \<comment> \<open>the conversion in \<^verbatim>\<open>generate_preview\<close>: the confidence keeps its default\<close>
  "mask_box_preview d =
     \<lparr>x = mask_x d, y = mask_y d, width = mask_width d, height = mask_height d,
      confidence = 1\<rparr>"

section \<open>Render: \<^verbatim>\<open>process_video\<close>\<close>

definition progress_value :: "nat \<Rightarrow> int \<Rightarrow> rat" where
  \<comment> \<open>\<^verbatim>\<open>(frame_number + 1) / total_frames * 100\<close> for \<open>total_frames \<noteq> 0\<close>\<close>
  "progress_value frame_number total_frames =
     fl (fl (of_int (int frame_number + 1) / of_int total_frames) * 100)"

definition render_frame :: "'p gaussian \<Rightarrow> masks_data \<Rightarrow> int \<Rightarrow> nat \<Rightarrow> 'p frame \<Rightarrow> 'p frame" where
  \<comment> \<open>The frame that \<^verbatim>\<open>process_video\<close> writes for the frame read as number
      \<open>frame_number\<close>: blurred when the schedule has masks for it, untouched otherwise.\<close>
  "render_frame gb masks_data blur_strength frame_number frame =
     (let frame_masks = get_masks masks_data frame_number
      in if frame_masks \<noteq> []
         then apply_blur_to_frame gb frame (map mask_box frame_masks) blur_strength
         else frame)"

fun process_loop ::
  "'p gaussian \<Rightarrow> masks_data \<Rightarrow> int \<Rightarrow> bool \<Rightarrow> int \<Rightarrow> nat \<Rightarrow> 'p frame list \<Rightarrow> 'p io
     \<Rightarrow> (error + bool) \<times> 'p io" where
  "process_loop gb masks_data blur_strength callback total_frames frame_number [] st =
     (Inr True, st)"
| "process_loop gb masks_data blur_strength callback total_frames frame_number (frame # rest) st =
     (let frame' = render_frame gb masks_data blur_strength frame_number frame;
          st' = st\<lparr>written := written st @ [frame'], frames_read := Suc (frames_read st)\<rparr>
      in if callback \<and> frame_number mod 10 = 0
         then (if total_frames = 0 then (Inl ZeroDivisionError, st')
               else process_loop gb masks_data blur_strength callback total_frames
                      (Suc frame_number) rest
                      (st'\<lparr>progress := progress st' @ [progress_value frame_number total_frames]\<rparr>))
         else process_loop gb masks_data blur_strength callback total_frames
                (Suc frame_number) rest st')"

definition process_video ::
  "'p gaussian \<Rightarrow> 'p source \<Rightarrow> bool \<Rightarrow> masks_data \<Rightarrow> int \<Rightarrow> bool \<Rightarrow> (error + bool) \<times> 'p io" where
  \<comment> \<open>\<open>sink_opened\<close> is \<^verbatim>\<open>out.isOpened()\<close> after \<^verbatim>\<open>cv2.VideoWriter(output_path, ...)\<close>;
      \<open>callback\<close> tells whether a \<^verbatim>\<open>progress_callback\<close> is given.\<close>
  "process_video gb src sink_opened masks_data blur_strength callback =
     (if \<not> src_exists src then (Inl FileNotFoundError, io0)
      else if \<not> src_opened src then (Inl ValueError, io0)
      else if \<not> sink_opened then (Inl ValueError, io0)
      else process_loop gb masks_data blur_strength callback (src_frame_count src) 0
             (src_frames src) io0)"

section \<open>Preview: \<^verbatim>\<open>generate_preview\<close>\<close>

text \<open>
  \<^verbatim>\<open>cv2.resize(frame, (w, h))\<close> is a library function and a parameter of the model, in the way
  of the blur: \<open>rs frame w h r c\<close> is the pixel at row \<open>r\<close> and column \<open>c\<close> of the result, which
  has \<open>h\<close> rows and \<open>w\<close> columns.  OpenCV raises an error for a size with a non-positive side.
\<close>

type_synonym 'p resizer = "'p frame \<Rightarrow> int \<Rightarrow> int \<Rightarrow> nat \<Rightarrow> nat \<Rightarrow> 'p"

definition resize :: "'p resizer \<Rightarrow> 'p frame \<Rightarrow> int \<Rightarrow> int \<Rightarrow> error + 'p frame" where
  "resize rs frame w h =
     (if w \<le> 0 \<or> h \<le> 0 then Inl CvError
      else Inr (map (\<lambda>r. map (\<lambda>c. rs frame w h r c) [0..<nat w]) [0..<nat h]))"

text \<open>
  \<^verbatim>\<open>out.write(frame)\<close> on a \<^verbatim>\<open>cv2.VideoWriter\<close> that is not open writes nothing and raises
  nothing.
\<close>

definition sink_write :: "bool \<Rightarrow> 'p frame \<Rightarrow> 'p io \<Rightarrow> 'p io" where
  "sink_write sink_opened frame st =
     (if sink_opened then st\<lparr>written := written st @ [frame]\<rparr> else st)"

definition preview_blur :: "'p gaussian \<Rightarrow> masks_data \<Rightarrow> int \<Rightarrow> nat \<Rightarrow> 'p frame \<Rightarrow> 'p frame" where
  \<comment> \<open>The frame that \<^verbatim>\<open>generate_preview\<close> resizes for the frame read as number
      \<open>frame_num\<close>.\<close>
  "preview_blur gb masks_data blur_strength frame_num frame =
     (let frame_masks = get_masks masks_data frame_num
      in if frame_masks \<noteq> []
         then apply_blur_to_frame gb frame (map mask_box_preview frame_masks) blur_strength
         else frame)"

fun preview_loop ::
  "'p gaussian \<Rightarrow> 'p resizer \<Rightarrow> masks_data \<Rightarrow> int \<Rightarrow> bool \<Rightarrow> int \<Rightarrow> int \<Rightarrow> nat \<Rightarrow> nat
     \<Rightarrow> 'p frame list \<Rightarrow> 'p io \<Rightarrow> (error + bool) \<times> 'p io" where
  \<comment> \<open>\<open>frame_num\<close> is the loop variable, \<open>todo\<close> the number of values \<^verbatim>\<open>range(preview_frames)\<close>
      has still to produce.\<close>
  "preview_loop gb rs masks_data blur_strength sink_opened pw ph frame_num 0 frames st =
     (Inr True, st)"
| "preview_loop gb rs masks_data blur_strength sink_opened pw ph frame_num (Suc todo) [] st =
     (Inr True, st)"
| "preview_loop gb rs masks_data blur_strength sink_opened pw ph frame_num (Suc todo)
     (frame # rest) st =
     (let frame' = preview_blur gb masks_data blur_strength frame_num frame;
          st' = st\<lparr>frames_read := Suc (frames_read st)\<rparr>
      in case resize rs frame' pw ph of
           Inl e \<Rightarrow> (Inl e, st')
         | Inr frame_preview \<Rightarrow>
             preview_loop gb rs masks_data blur_strength sink_opened pw ph (Suc frame_num) todo
               rest (sink_write sink_opened frame_preview st'))"

definition preview_frames :: "'p source \<Rightarrow> int \<Rightarrow> int" where
  \<comment> \<open>\<^verbatim>\<open>min(total_frames, int(preview_duration * fps))\<close>\<close>
  "preview_frames src preview_duration =
     min (src_frame_count src) (py_int (fl (of_int preview_duration * src_fps src)))"

definition preview_width :: "'p source \<Rightarrow> int" where
  "preview_width src = min 640 (src_width src)"

definition preview_height :: "'p source \<Rightarrow> int" where
  \<comment> \<open>\<^verbatim>\<open>int(preview_width * height / width)\<close> for \<open>width \<noteq> 0\<close>\<close>
  "preview_height src =
     py_int (fl (of_int (preview_width src * src_height src) / of_int (src_width src)))"

definition generate_preview ::
  "'p gaussian \<Rightarrow> 'p resizer \<Rightarrow> 'p source \<Rightarrow> bool \<Rightarrow> masks_data \<Rightarrow> int \<Rightarrow> int
     \<Rightarrow> (error + bool) \<times> 'p io" where
  "generate_preview gb rs src sink_opened masks_data blur_strength preview_duration =
     (if \<not> src_opened src then (Inl ValueError, io0)
      else if src_width src = 0 then (Inl ZeroDivisionError, io0)
      else preview_loop gb rs masks_data blur_strength sink_opened
             (preview_width src) (preview_height src) 0
             (nat (preview_frames src preview_duration)) (src_frames src) io0)"

section \<open>Detection: \<^verbatim>\<open>detect_faces\<close> and \<^verbatim>\<open>analyze_video\<close>\<close>

text \<open>
  A \<^verbatim>\<open>dlib\<close> rectangle, through the four accessors the source calls: \<^verbatim>\<open>left()\<close>, \<^verbatim>\<open>top()\<close>,
  \<^verbatim>\<open>width()\<close> and \<^verbatim>\<open>height()\<close>.
\<close>

record rect =
  rect_left :: int
  rect_top :: int
  rect_width :: int
  rect_height :: int

text \<open>
  The constructor of \<^verbatim>\<open>VideoProcessor\<close> sets exactly one of \<^verbatim>\<open>cnn_detector\<close> and \<^verbatim>\<open>detector\<close>.
  The detector is a library object; its call on a frame either raises (\<open>Inl\<close>) or returns
  its detections: rectangles with a confidence for the CNN model, rectangles for HOG.
\<close>

datatype 'p detector =
    CNN "'p frame \<Rightarrow> error + (rect \<times> rat) list"
  | HOG "'p frame \<Rightarrow> error + rect list"

definition margin_cnn :: rat where
  \<comment> \<open>the float literal \<^verbatim>\<open>0.15\<close>\<close>
  "margin_cnn = fl (15 / 100)"

definition margin_hog :: rat where
  \<comment> \<open>the float literal \<^verbatim>\<open>0.2\<close>\<close>
  "margin_hog = fl (2 / 10)"

definition shrink_start :: "int \<Rightarrow> int \<Rightarrow> rat \<Rightarrow> int" where
  \<comment> \<open>\<^verbatim>\<open>int(x - w * margin)\<close>\<close>
  "shrink_start a w margin = py_int (fl (of_int a - fl (of_int w * margin)))"

definition grow_length :: "int \<Rightarrow> rat \<Rightarrow> int" where
  \<comment> \<open>\<^verbatim>\<open>int(w * (1 + 2 * margin))\<close>\<close>
  "grow_length w margin = py_int (fl (of_int w * fl (1 + fl (2 * margin))))"

definition add_margin :: "rat \<Rightarrow> int \<Rightarrow> int \<Rightarrow> rect \<Rightarrow> rat \<Rightarrow> FaceBoundingBox" where
  \<comment> \<open>The four assignments after \<^verbatim>\<open>margin = ...\<close> and the construction of the box;
      \<open>fw\<close> and \<open>fh\<close> are the width and the height of the frame.\<close>
  "add_margin margin fw fh r conf =
     (let x1 = max 0 (shrink_start (rect_left r) (rect_width r) margin);
          y1 = max 0 (shrink_start (rect_top r) (rect_height r) margin);
          w1 = min (fw - x1) (grow_length (rect_width r) margin);
          h1 = min (fh - y1) (grow_length (rect_height r) margin)
      in \<lparr>x = x1, y = y1, width = w1, height = h1, confidence = conf\<rparr>)"

fun cnn_faces ::
  "int \<Rightarrow> int \<Rightarrow> (rect \<times> rat) list \<Rightarrow> FaceBoundingBox list \<Rightarrow> FaceBoundingBox list" where
  "cnn_faces fw fh [] faces = faces"
| "cnn_faces fw fh ((r, conf) # dets) faces =
     (if conf < 1 / 2 then cnn_faces fw fh dets faces
      else cnn_faces fw fh dets (faces @ [add_margin margin_cnn fw fh r conf]))"

fun hog_faces :: "int \<Rightarrow> int \<Rightarrow> rect list \<Rightarrow> FaceBoundingBox list \<Rightarrow> FaceBoundingBox list" where
  "hog_faces fw fh [] faces = faces"
| "hog_faces fw fh (r # dets) faces =
     hog_faces fw fh dets (faces @ [add_margin margin_hog fw fh r 1])"

definition detect_faces :: "'p detector \<Rightarrow> 'p frame \<Rightarrow> FaceBoundingBox list" where
  \<comment> \<open>An exception of the detector call leaves the \<^verbatim>\<open>try\<close> block with \<^verbatim>\<open>faces\<close> still
      empty; the \<^verbatim>\<open>except\<close> clause logs it and \<^verbatim>\<open>faces\<close> is returned.\<close>
  "detect_faces det frame =
     (let fh = int (shape0 frame); fw = int (shape1 frame)
      in case det of
           CNN cnn_detector \<Rightarrow>
             (case cnn_detector frame of Inl e \<Rightarrow> [] | Inr dets \<Rightarrow> cnn_faces fw fh dets [])
         | HOG detector \<Rightarrow>
             (case detector frame of Inl e \<Rightarrow> [] | Inr dets \<Rightarrow> hog_faces fw fh dets []))"

record video_info =
  info_fps :: rat
  info_total_frames :: int
  info_duration :: rat
  info_width :: int
  info_height :: int

text \<open>
  \<^verbatim>\<open>faces_by_frame\<close> is a dictionary with string keys, kept in insertion order:
  \<^verbatim>\<open>faces_by_frame[k] = v\<close> replaces the value of a key that is present and appends a new
  key otherwise, which is \<^const>\<open>AList.update\<close>.
\<close>

record analysis_result =
  result_video_info :: video_info
  faces_by_frame :: "(string \<times> FaceBoundingBox list) list"
  total_analyzed_frames :: nat

fun analyze_loop ::
  "'p detector \<Rightarrow> nat \<Rightarrow> 'p frame list \<Rightarrow> (string \<times> FaceBoundingBox list) list
     \<Rightarrow> (string \<times> FaceBoundingBox list) list" where
  "analyze_loop det frame_number [] fbf = fbf"
| "analyze_loop det frame_number (frame # rest) fbf =
     (let faces = detect_faces det frame
      in analyze_loop det (Suc frame_number) rest
           (if faces \<noteq> [] then AList.update (str_nat frame_number) faces fbf else fbf))"

definition analyze_video ::
  "'p detector \<Rightarrow> 'p source \<Rightarrow> error option \<Rightarrow> error + analysis_result" where
  \<comment> \<open>\<open>save\<close> is the outcome of the optional step that writes the result to
      \<^verbatim>\<open>output_json_path\<close>: \<open>None\<close> when no path is given or the file is written, \<open>Some e\<close>
      when that step raises \<open>e\<close>.\<close>
  "analyze_video det src save =
     (if \<not> src_exists src then Inl FileNotFoundError
      else if \<not> src_opened src then Inl ValueError
      else (let fps = src_fps src;
                total = src_frame_count src;
                duration = (if fps > 0 then fl (of_int total / fps) else 0);
                fbf = analyze_loop det 0 (src_frames src) []
            in case save of
                 Some e \<Rightarrow> Inl e
               | None \<Rightarrow>
                   Inr \<lparr>result_video_info =
                          \<lparr>info_fps = fps, info_total_frames = total, info_duration = duration,
                           info_width = src_width src, info_height = src_height src\<rparr>,
                        faces_by_frame = fbf,
                        total_analyzed_frames = length fbf\<rparr>))"

section \<open>The formulas of the specification\<close>

text \<open>
  The margin formulas as the specification words them, over exact rational arithmetic:
  \<open>new_x = max(0, x - width*margin)\<close> and
  \<open>new_w = min(frame_width - new_x, width*(1+2*margin))\<close>.
\<close>

definition spec_new_x :: "int \<Rightarrow> int \<Rightarrow> rat \<Rightarrow> rat" where
  "spec_new_x a w margin = max 0 (of_int a - of_int w * margin)"

definition spec_new_w :: "int \<Rightarrow> rat \<Rightarrow> int \<Rightarrow> rat \<Rightarrow> rat" where
  "spec_new_w frame_width new_x w margin =
     min (of_int frame_width - new_x) (of_int w * (1 + 2 * margin))"

text \<open>
  A schedule given by frame number, written with integer keys and with the string keys
  \<^verbatim>\<open>str(n)\<close>.
\<close>

definition int_keyed :: "(nat \<times> mask_dict list) list \<Rightarrow> masks_data" where
  "int_keyed sched = map_of (map (\<lambda>(n, ms). (IntKey (int n), ms)) sched)"

definition str_keyed :: "(nat \<times> mask_dict list) list \<Rightarrow> masks_data" where
  "str_keyed sched = map_of (map (\<lambda>(n, ms). (StrKey (str_nat n), ms)) sched)"

text \<open>
  The preview bounds as the specification words them:
  \<open>min(source_frames_read, round(preview_duration * fps))\<close> frames of height
  \<open>round(preview_width * height / width)\<close>.
\<close>

definition spec_preview_count :: "nat \<Rightarrow> int \<Rightarrow> rat \<Rightarrow> int" where
  "spec_preview_count source_frames_read preview_duration fps =
     min (int source_frames_read) (py_round (of_int preview_duration * fps))"

definition spec_preview_height :: "int \<Rightarrow> int \<Rightarrow> int \<Rightarrow> int" where
  "spec_preview_height pw h w = py_round (of_int (pw * h) / of_int w)"





section \<open>Properties of the detection adapter\<close>

lemma cnn_faces_closed:
  "cnn_faces fw fh dets faces =
     faces @ map (\<lambda>(r, c). add_margin margin_cnn fw fh r c)
               (filter (\<lambda>(r, c). \<not> c < 1 / 2) dets)"
  by (induction dets arbitrary: faces) auto

lemma hog_faces_closed:
  "hog_faces fw fh dets faces = faces @ map (\<lambda>r. add_margin margin_hog fw fh r 1) dets"
  by (induction dets arbitrary: faces) auto

lemma add_margin_within:
  "0 \<le> x (add_margin m fw fh r c) \<and> 0 \<le> y (add_margin m fw fh r c) \<and>
   x (add_margin m fw fh r c) + width (add_margin m fw fh r c) \<le> fw \<and>
   y (add_margin m fw fh r c) + height (add_margin m fw fh r c) \<le> fh"
  by (simp add: add_margin_def Let_def min_def max_def)

text \<open>
  Claim C8, as the code has it.  In CNN mode \<^verbatim>\<open>detect_faces\<close> drops exactly the detections
  whose confidence is below 0.5 and keeps the others with their confidence; in HOG mode it
  keeps every detection with confidence 1.  Every kept rectangle is enlarged by the margin
  of its mode (the floats 0.15 and 0.2), where each new coordinate is computed in float
  arithmetic and then truncated toward zero by \<^verbatim>\<open>int\<close>:
  \<open>new_x = max(0, int(x - w*margin))\<close>, \<open>new_w = min(frame_width - new_x, int(w*(1 + 2*margin)))\<close>,
  and the same for \<open>y\<close> and the height.
\<close>

theorem detect_faces_filter_and_margin:
  "detect_faces (CNN cnn_detector) frame =
     (case cnn_detector frame of
        Inl e \<Rightarrow> []
      | Inr dets \<Rightarrow>
          map (\<lambda>(r, c). add_margin (fl (15 / 100)) (int (shape1 frame)) (int (shape0 frame)) r c)
            (filter (\<lambda>(r, c). \<not> c < 1 / 2) dets))
   \<and> detect_faces (HOG detector) frame =
     (case detector frame of
        Inl e \<Rightarrow> []
      | Inr dets \<Rightarrow>
          map (\<lambda>r. add_margin (fl (2 / 10)) (int (shape1 frame)) (int (shape0 frame)) r 1) dets)
   \<and> x (add_margin m fw fh r c) =
       max 0 (py_int (fl (of_int (rect_left r) - fl (of_int (rect_width r) * m))))
   \<and> y (add_margin m fw fh r c) =
       max 0 (py_int (fl (of_int (rect_top r) - fl (of_int (rect_height r) * m))))
   \<and> width (add_margin m fw fh r c) =
       min (fw - x (add_margin m fw fh r c))
         (py_int (fl (of_int (rect_width r) * fl (1 + fl (2 * m)))))
   \<and> height (add_margin m fw fh r c) =
       min (fh - y (add_margin m fw fh r c))
         (py_int (fl (of_int (rect_height r) * fl (1 + fl (2 * m)))))
   \<and> confidence (add_margin m fw fh r c) = c"
  by (simp add: detect_faces_def Let_def cnn_faces_closed hog_faces_closed margin_cnn_def
        margin_hog_def add_margin_def shrink_start_def grow_length_def split: sum.splits)

text \<open>
  Claim C8 as the specification states it fails: a CNN detection at \<open>x = 10\<close> of width 10
  and confidence 0.6 comes back with \<open>x = 8\<close>, where the formula
  \<open>max(0, x - width*margin)\<close> gives \<open>17/2\<close>.
\<close>

theorem detect_faces_margin_counterexample:
  "of_int (x (hd (detect_faces
      (CNN (\<lambda>f. Inr [(\<lparr>rect_left = 10, rect_top = 10, rect_width = 10, rect_height = 10\<rparr>,
                      fl (6 / 10))]))
      (replicate 100 (replicate 100 (0::nat))))))
   \<noteq> spec_new_x 10 10 (15 / 100)"
  by code_simp

text \<open>
  Claim C10.  Every box that \<^verbatim>\<open>detect_faces\<close> returns lies within the frame: \<open>x \<ge> 0\<close>,
  \<open>y \<ge> 0\<close>, \<open>x + width \<le> frame_width\<close> and \<open>y + height \<le> frame_height\<close>, for every frame,
  both detector modes and every list of raw detections.
\<close>

theorem detect_faces_within_frame:
  "\<forall>b \<in> set (detect_faces det frame).
     0 \<le> x b \<and> 0 \<le> y b \<and> x b + width b \<le> int (shape1 frame) \<and>
     y b + height b \<le> int (shape0 frame)"
proof (cases det)
  case (CNN d)
  then show ?thesis
    by (auto simp: detect_faces_def Let_def cnn_faces_closed add_margin_within split: sum.splits)
next
  case (HOG d)
  then show ?thesis
    by (auto simp: detect_faces_def Let_def hog_faces_closed add_margin_within split: sum.splits)
qed

theorem detect_faces_within_frame_witness:
  "\<lparr>x = 81, y = 1, width = 39, height = 62, confidence = 1\<rparr>
     \<in> set (detect_faces
         (HOG (\<lambda>f. Inr [\<lparr>rect_left = 90, rect_top = 10, rect_width = 45, rect_height = 45\<rparr>]))
         (replicate 100 (replicate 120 (0::nat))))
   \<and> (81::int) + 39 \<le> int (shape1 (replicate 100 (replicate 120 (0::nat))))
   \<and> (1::int) + 62 \<le> int (shape0 (replicate 100 (replicate 120 (0::nat))))"
proof -
  have e: "detect_faces
         (HOG (\<lambda>f. Inr [\<lparr>rect_left = 90, rect_top = 10, rect_width = 45, rect_height = 45\<rparr>]))
         (replicate 100 (replicate 120 (0::nat)))
       = [\<lparr>x = 81, y = 1, width = 39, height = 62, confidence = 1\<rparr>]"
    by code_simp
  show ?thesis
    using detect_faces_within_frame
      [of "HOG (\<lambda>f. Inr [\<lparr>rect_left = 90, rect_top = 10, rect_width = 45, rect_height = 45\<rparr>])"
          "replicate 100 (replicate 120 (0::nat))"]
    by (simp add: e)
qed

section \<open>Properties of the region blur\<close>

lemma shape1_nth: "shape1 f = (if f = [] then 0 else length (f ! 0))"
  by (cases f) (simp_all add: shape1_def)

lemma assign_slice2_length: "length (assign_slice2 y1 y2 x1 x2 a b) = length a"
  by (simp add: assign_slice2_def)

lemma assign_slice2_row_length:
  "r < length a \<Longrightarrow> length (assign_slice2 y1 y2 x1 x2 a b ! r) = length (a ! r)"
  by (simp add: assign_slice2_def)

lemma assign_slice2_nth:
  "r < length a \<Longrightarrow> c < length (a ! r) \<Longrightarrow>
   assign_slice2 y1 y2 x1 x2 a b ! r ! c =
     (if in_slice y1 y2 (shape0 a) r \<and> in_slice x1 x2 (shape1 a) c
      then b ! (r - slice_index y1 (shape0 a)) ! (c - slice_index x1 (shape1 a))
      else a ! r ! c)"
  by (simp add: assign_slice2_def)

lemma blur_mask_length: "length (blur_mask gb s h w rf m) = length rf"
  by (simp add: blur_mask_def Let_def assign_slice2_length)

lemma blur_mask_row_length:
  "r < length rf \<Longrightarrow> length (blur_mask gb s h w rf m ! r) = length (rf ! r)"
  by (simp add: blur_mask_def Let_def assign_slice2_row_length)

lemma blur_mask_shape1: "shape1 (blur_mask gb s h w rf m) = shape1 rf"
proof (cases "rf = []")
  case True
  then show ?thesis
    by (simp add: shape1_nth blur_mask_def Let_def assign_slice2_def)
next
  case False
  then have "0 < length rf" by simp
  from blur_mask_row_length[OF this, of gb s h w m] False show ?thesis
    using blur_mask_length[of gb s h w rf m] by (auto simp: shape1_nth)
qed

text \<open>
  A region whose right and lower ends are not negative changes no pixel outside its clipped
  rectangle, and so does a list of such regions.
\<close>

lemma blur_mask_outside:
  assumes "0 \<le> x m + width m" "0 \<le> y m + height m"
    and "r < length rf" "c < length (rf ! r)" "c < shape1 rf"
    and "\<not> (max 0 (y m) \<le> int r \<and> int r < min (int h) (y m + height m)
            \<and> max 0 (x m) \<le> int c \<and> int c < min (int w) (x m + width m))"
  shows "blur_mask gb s h w rf m ! r ! c = rf ! r ! c"
proof -
  have "\<not> (in_slice (max 0 (y m)) (min (int h) (y m + height m)) (shape0 rf) r
          \<and> in_slice (max 0 (x m)) (min (int w) (x m + width m)) (shape1 rf) c)"
    using assms by (auto simp: in_slice_def slice_index_def shape0_def)
  with assms(3,4) show ?thesis
    by (auto simp add: blur_mask_def Let_def assign_slice2_nth)
qed

lemma fold_blur_outside:
  assumes "\<forall>m \<in> set masks. 0 \<le> x m + width m \<and> 0 \<le> y m + height m"
    and "r < length rf" "c < length (rf ! r)" "c < shape1 rf"
    and "\<forall>m \<in> set masks.
           \<not> (max 0 (y m) \<le> int r \<and> int r < min (int h) (y m + height m)
              \<and> max 0 (x m) \<le> int c \<and> int c < min (int w) (x m + width m))"
  shows "foldl (blur_mask gb s h w) rf masks ! r ! c = rf ! r ! c"
  using assms
proof (induction masks arbitrary: rf)
  case Nil
  show ?case by simp
next
  case (Cons m masks)
  let ?rf = "blur_mask gb s h w rf m"
  have a: "r < length ?rf" "c < length (?rf ! r)" "c < shape1 ?rf"
    using Cons.prems by (simp_all add: blur_mask_length blur_mask_row_length blur_mask_shape1)
  have "foldl (blur_mask gb s h w) ?rf masks ! r ! c = ?rf ! r ! c"
    using Cons.prems a by (intro Cons.IH) simp_all
  also have "?rf ! r ! c = rf ! r ! c"
    using Cons.prems by (intro blur_mask_outside) simp_all
  finally show ?case by simp
qed

lemma apply_blur_outside_regions:
  assumes "\<forall>m \<in> set masks. 0 \<le> x m + width m \<and> 0 \<le> y m + height m"
    and "rectangular frame" "r < shape0 frame" "c < shape1 frame"
    and "\<forall>m \<in> set masks.
           \<not> (max 0 (y m) \<le> int r \<and> int r < min (int (shape0 frame)) (y m + height m)
              \<and> max 0 (x m) \<le> int c \<and> int c < min (int (shape1 frame)) (x m + width m))"
  shows "apply_blur_to_frame gb frame masks s ! r ! c = frame ! r ! c"
proof -
  from assms(2,3) have "length (frame ! r) = shape1 frame"
    by (simp add: rectangular_def shape0_def list_all_length)
  with assms show ?thesis
    by (simp add: apply_blur_to_frame_def shape0_def fold_blur_outside)
qed














lemma apply_blur_snoc:
  "apply_blur_to_frame gb frame (ms @ [m]) s =
     blur_mask gb s (shape0 frame) (shape1 frame) (apply_blur_to_frame gb frame ms s) m"
  by (simp add: apply_blur_to_frame_def)




text \<open>
  Claim C3 at a region that lies wholly to the left of the frame.  In a frame of one row and
  four columns the region \<open>x = -3\<close>, \<open>width = 1\<close> gives \<open>x1 = 0\<close> and \<open>x2 = min(4, -2) = -2\<close>; the
  slice \<^verbatim>\<open>0:-2\<close> counts its end from the right and selects columns 0 and 1, so the blur is
  applied to them although the region does not meet the frame.
\<close>

theorem apply_blur_region_left_of_frame:
  "apply_blur_to_frame gb [[10, 20, 30, 40 :: nat]]
     [\<lparr>x = - 3, y = 0, width = 1, height = 1, confidence = 1\<rparr>] 15
   = [[gb 31 [[10, 20]] 0 0, gb 31 [[10, 20]] 0 1, 30, 40]]"
  by (simp add: apply_blur_to_frame_def blur_mask_def Let_def slice2_def py_slice_def
      slice_index_def array_size_def shape0_def shape1_def assign_slice2_def in_slice_def
      GaussianBlur_def kernel_size_def upt_rec)

section \<open>Properties of the render pipeline\<close>

lemma upt_shift: "[k..<k + Suc j] = k # [Suc k..<Suc k + j]"
  by (subst upt_rec) simp

lemma process_loop_written:
  "process_loop gb md s cb tf k fs st = (out, st') \<Longrightarrow>
     frames_read st \<le> frames_read st' \<and> frames_read st' - frames_read st \<le> length fs \<and>
     written st' = written st @
       map (\<lambda>(n, f). render_frame gb md s n f)
         (zip [k..<k + (frames_read st' - frames_read st)] fs)"
proof (induction fs arbitrary: k st)
  case Nil
  then show ?case by auto
next
  case (Cons f fs)
  let ?st1 = "st\<lparr>written := written st @ [render_frame gb md s k f],
                  frames_read := Suc (frames_read st)\<rparr>"
  have step: "frames_read st \<le> frames_read st' \<and>
       frames_read st' - frames_read st \<le> length (f # fs) \<and>
       written st' = written st @
         map (\<lambda>(n, f). render_frame gb md s n f)
           (zip [k..<k + (frames_read st' - frames_read st)] (f # fs))"
    if rec: "process_loop gb md s cb tf (Suc k) fs st2 = (out, st')"
      and w: "written st2 = written st @ [render_frame gb md s k f]"
      and r: "frames_read st2 = Suc (frames_read st)" for st2
  proof -
    define j where "j = frames_read st' - Suc (frames_read st)"
    from Cons.IH[OF rec] w r
    have a: "Suc (frames_read st) \<le> frames_read st'"
      and b: "j \<le> length fs"
      and c: "written st' = (written st @ [render_frame gb md s k f]) @
         map (\<lambda>(n, f). render_frame gb md s n f) (zip [Suc k..<Suc k + j] fs)"
      by (simp_all add: j_def del: upt_Suc)
    from a have d: "frames_read st' - frames_read st = Suc j"
      by (simp add: j_def)
    show ?thesis
      unfolding d upt_shift using a b c by (simp del: upt_Suc)
  qed
  show ?case
  proof (cases "cb \<and> k mod 10 = 0")
    case True
    show ?thesis
    proof (cases "tf = 0")
      case z: True
      with True Cons.prems have "st' = ?st1" by (simp add: Let_def)
      then show ?thesis by simp
    next
      case nz: False
      let ?st2 = "?st1\<lparr>progress := progress ?st1 @ [progress_value k tf]\<rparr>"
      from True nz Cons.prems
      have "process_loop gb md s cb tf (Suc k) fs ?st2 = (out, st')"
        by (simp add: Let_def)
      from step[OF this] show ?thesis by simp
    qed
  next
    case False
    with Cons.prems
    have "process_loop gb md s cb tf (Suc k) fs ?st1 = (out, st')"
      by (auto simp add: Let_def)
    from step[OF this] show ?thesis by simp
  qed
qed

lemma process_loop_success_reads_all:
  "process_loop gb md s cb tf k fs st = (Inr True, st') \<Longrightarrow>
     frames_read st' = frames_read st + length fs"
  by (induction fs arbitrary: k st) (auto simp: Let_def split: if_splits)

lemma process_loop_succeeds:
  "\<not> (cb \<and> tf = 0) \<Longrightarrow> fst (process_loop gb md s cb tf k fs st) = Inr True"
  by (induction fs arbitrary: k st) (auto simp: Let_def)

lemma process_loop_progress_cb:
  "tf \<noteq> 0 \<Longrightarrow>
   progress (snd (process_loop gb md s True tf k fs st)) =
     progress st @
       map (\<lambda>n. progress_value n tf) (filter (\<lambda>n. n mod 10 = 0) [k..<k + length fs])"
proof (induction fs arbitrary: k st)
  case Nil
  then show ?case by simp
next
  case (Cons f fs)
  have e: "[k..<k + length (f # fs)] = k # [Suc k..<Suc k + length fs]"
    by (subst upt_rec) simp
  show ?case
    unfolding e using Cons.prems by (simp add: Let_def Cons.IH del: upt_Suc)
qed

lemma process_loop_progress_no_cb:
  "progress (snd (process_loop gb md s False tf k fs st)) = progress st"
  by (induction fs arbitrary: k st) (simp_all add: Let_def)

text \<open>
  Claim C5.  Whatever \<^verbatim>\<open>process_video\<close> does (return or raise), the output holds exactly one
  frame per frame read, in the order read: frame number \<open>n\<close> of the output is the rendering
  of frame number \<open>n\<close> of the source.  A run that returns has read every frame the source
  yields, whatever frame count the container reports; and a run whose source and sink open
  returns, unless a progress callback is given and the reported frame count is 0.
\<close>

theorem process_video_one_frame_out_per_frame_read:
  assumes "process_video gb src sink_opened masks_data blur_strength callback = (out, io)"
  shows "length (written io) = frames_read io
     \<and> frames_read io \<le> length (src_frames src)
     \<and> written io = map (\<lambda>(n, f). render_frame gb masks_data blur_strength n f)
                      (zip [0..<frames_read io] (src_frames src))
     \<and> (out = Inr True \<longrightarrow> frames_read io = length (src_frames src))
     \<and> (src_exists src \<and> src_opened src \<and> sink_opened
          \<and> \<not> (callback \<and> src_frame_count src = 0) \<longrightarrow> out = Inr True)"
proof (cases "src_exists src \<and> src_opened src \<and> sink_opened")
  case False
  with assms have "io = io0" and "out \<noteq> Inr True"
    by (auto simp: process_video_def split: if_splits)
  with False show ?thesis by (auto simp add: io0_def)
next
  case True
  with assms
  have loop: "process_loop gb masks_data blur_strength callback (src_frame_count src) 0
                (src_frames src) io0 = (out, io)"
    by (simp add: process_video_def)
  from process_loop_written[OF loop]
  have r: "frames_read io \<le> length (src_frames src)"
    and w: "written io = map (\<lambda>(n, f). render_frame gb masks_data blur_strength n f)
                      (zip [0..<frames_read io] (src_frames src))"
    by (simp_all add: io0_def)
  from w r have l: "length (written io) = frames_read io"
    by simp
  have s: "out = Inr True \<longrightarrow> frames_read io = length (src_frames src)"
    using process_loop_success_reads_all[of gb masks_data blur_strength callback
        "src_frame_count src" 0 "src_frames src" io0 io] loop
    by (auto simp: io0_def)
  have t: "\<not> (callback \<and> src_frame_count src = 0) \<longrightarrow> out = Inr True"
    using process_loop_succeeds[of callback "src_frame_count src" gb masks_data blur_strength 0
        "src_frames src" io0] loop
    by auto
  from l r w s t show ?thesis by blast
qed

theorem process_video_one_frame_out_per_frame_read_witness:
  "process_video (\<lambda>k roi r c. 0)
     \<lparr>src_exists = True, src_opened = True, src_fps = 25, src_frame_count = 2, src_width = 2,
      src_height = 1, src_frames = [[[1, 2]], [[3, 4]], [[5, 6 :: nat]]]\<rparr>
     True
     [StrKey ''1'' \<mapsto> [\<lparr>mask_x = 0, mask_y = 0, mask_width = 1, mask_height = 1,
                          mask_confidence = None\<rparr>]]
     15 True
   = (Inr True, \<lparr>written = [[[1, 2]], [[0, 4]], [[5, 6]]], frames_read = 3, progress = [50]\<rparr>)
   \<and> length [[[1, 2]], [[0, 4]], [[5, 6 :: nat]]] = (3 :: nat)"
proof -
  have e: "process_video (\<lambda>k roi r c. 0)
     \<lparr>src_exists = True, src_opened = True, src_fps = 25, src_frame_count = 2, src_width = 2,
      src_height = 1, src_frames = [[[1, 2]], [[3, 4]], [[5, 6 :: nat]]]\<rparr>
     True
     [StrKey ''1'' \<mapsto> [\<lparr>mask_x = 0, mask_y = 0, mask_width = 1, mask_height = 1,
                          mask_confidence = None\<rparr>]]
     15 True
   = (Inr True, \<lparr>written = [[[1, 2]], [[0, 4]], [[5, 6]]], frames_read = 3, progress = [50]\<rparr>)"
    by code_simp
  from process_video_one_frame_out_per_frame_read[OF e] e show ?thesis
    by simp
qed

text \<open>
  Claim C6 at a source whose container reports 5 frames and that yields 21: the callback is
  called at frames 0, 10 and 20 with \<open>(n + 1) / 5 * 100\<close>, which is 20, then
  220.00000000000003, then 420.
\<close>

theorem process_video_progress_above_100:
  "progress (snd (process_video (\<lambda>k roi r c. 0)
     \<lparr>src_exists = True, src_opened = True, src_fps = 25, src_frame_count = 5, src_width = 1,
      src_height = 1, src_frames = replicate 21 [[0 :: nat]]\<rparr>
     True Map.empty 15 True))
   = [20, 7740561859543041 / 35184372088832, 420]"
  by code_simp

section \<open>Properties of the preview pipeline\<close>

lemma py_int_fl_250: "py_int (fl 250) = 250"
  by code_simp

lemma py_int_fl_2: "py_int (fl 2) = 2"
  by code_simp

text \<open>
  Claim C7 at a sink that cannot be created, for a source of three frames:
  \<^verbatim>\<open>generate_preview\<close> never looks at \<^verbatim>\<open>out.isOpened()\<close>, reads the three frames, writes none
  and returns \<^verbatim>\<open>True\<close>, where \<^verbatim>\<open>process_video\<close> raises \<^verbatim>\<open>ValueError\<close> before reading a frame.
\<close>

theorem generate_preview_ignores_unopened_sink:
  "generate_preview gb rs
     \<lparr>src_exists = True, src_opened = True, src_fps = 25, src_frame_count = 3, src_width = 2,
      src_height = 2, src_frames = [f0, f1, f2]\<rparr> False Map.empty 15 10
    = (Inr True, \<lparr>written = [], frames_read = 3, progress = []\<rparr>)
  \<and> process_video gb
     \<lparr>src_exists = True, src_opened = True, src_fps = 25, src_frame_count = 3, src_width = 2,
      src_height = 2, src_frames = [f0, f1, f2]\<rparr> False Map.empty 15 False
    = (Inl ValueError, \<lparr>written = [], frames_read = 0, progress = []\<rparr>)"
  by (simp add: generate_preview_def process_video_def preview_frames_def preview_width_def
      preview_height_def py_int_fl_250 py_int_fl_2 io0_def numeral_3_eq_3 resize_def
      sink_write_def Let_def)

lemma preview_loop_opened:
  assumes "0 < pw" "0 < ph"
  shows "preview_loop gb rs md s True pw ph k todo fs st =
     (Inr True,
      st\<lparr>written := written st @
             map (\<lambda>(n, f). map (\<lambda>r. map (\<lambda>c. rs (preview_blur gb md s n f) pw ph r c)
                                     [0..<nat pw]) [0..<nat ph])
               (zip [k..<k + min todo (length fs)] fs),
          frames_read := frames_read st + min todo (length fs)\<rparr>)"
proof (induction fs arbitrary: k todo st)
  case Nil
  then show ?case by (cases todo) simp_all
next
  case (Cons f fs)
  show ?case
  proof (cases todo)
    case 0
    then show ?thesis by simp
  next
    case (Suc t)
    have m: "min (Suc t) (length (f # fs)) = Suc (min t (length fs))"
      by simp
    show ?thesis
      unfolding Suc m upt_shift using assms
      by (simp add: Let_def resize_def sink_write_def Cons.IH del: upt_Suc)
  qed
qed

lemma generate_preview_opened:
  assumes "src_opened src" "0 < preview_width src" "0 < preview_height src"
  shows "generate_preview gb rs src True md s d =
     (Inr True,
      \<lparr>written =
         map (\<lambda>(n, f). map (\<lambda>r. map (\<lambda>c. rs (preview_blur gb md s n f) (preview_width src)
                                         (preview_height src) r c)
                                 [0..<nat (preview_width src)]) [0..<nat (preview_height src)])
           (zip [0..<min (nat (preview_frames src d)) (length (src_frames src))] (src_frames src)),
       frames_read = min (nat (preview_frames src d)) (length (src_frames src)),
       progress = []\<rparr>)"
proof -
  from assms(2) have "src_width src \<noteq> 0"
    by (auto simp: preview_width_def)
  with assms show ?thesis
    by (simp add: generate_preview_def preview_loop_opened io0_def)
qed

text \<open>
  Claim C2, as the code has it.  A preview whose source and sink open and whose preview size
  is positive returns, and writes \<open>min(n, max(0, min(frame_count, int(preview_duration * fps))))\<close>
  frames, where \<open>n\<close> is the number of frames the source yields and \<^verbatim>\<open>int\<close> truncates; every
  written frame has \<open>preview_width = min(640, width)\<close> columns and
  \<open>preview_height = int(preview_width * height / width)\<close> rows, truncated as well.
\<close>

theorem generate_preview_frame_count_and_size:
  assumes "src_opened src" "0 < preview_width src" "0 < preview_height src"
  shows "fst (generate_preview gb rs src True md s d) = Inr True
     \<and> int (length (written (snd (generate_preview gb rs src True md s d)))) =
         min (int (length (src_frames src)))
           (max 0 (min (src_frame_count src) (py_int (fl (of_int d * src_fps src)))))
     \<and> (\<forall>f \<in> set (written (snd (generate_preview gb rs src True md s d))).
          shape1 f = nat (preview_width src) \<and> shape0 f = nat (preview_height src))
     \<and> preview_width src = min 640 (src_width src)
     \<and> preview_height src =
         py_int (fl (of_int (preview_width src * src_height src) / of_int (src_width src)))"
proof -
  note g = generate_preview_opened[OF assms, of gb rs md s d]
  have a: "fst (generate_preview gb rs src True md s d) = Inr True"
    by (simp add: g)
  have b: "int (length (written (snd (generate_preview gb rs src True md s d)))) =
         min (int (length (src_frames src)))
           (max 0 (min (src_frame_count src) (py_int (fl (of_int d * src_fps src)))))"
    by (simp add: g preview_frames_def)
  have c: "\<forall>f \<in> set (written (snd (generate_preview gb rs src True md s d))).
          shape1 f = nat (preview_width src) \<and> shape0 f = nat (preview_height src)"
    using assms(2,3)
    by (auto simp add: g shape0_def shape1_def upt_rec[of 0 "nat (preview_height src)"]
        simp del: upt_Suc)
  from a b c show ?thesis
    by (simp add: preview_width_def preview_height_def)
qed


lemma preview_frames_example: "preview_frames \<lparr>src_exists = True, src_opened = True, src_fps = fl (30000 / 1001),
      src_frame_count = 400, src_width = 854, src_height = 480, src_frames = fs\<rparr> 10 = 299"
  by code_simp

lemma preview_height_example: "preview_height \<lparr>src_exists = True, src_opened = True, src_fps = fl (30000 / 1001),
      src_frame_count = 400, src_width = 854, src_height = 480, src_frames = fs\<rparr> = 359"
  by code_simp

lemma preview_width_example: "preview_width \<lparr>src_exists = True, src_opened = True, src_fps = fl (30000 / 1001),
      src_frame_count = 400, src_width = 854, src_height = 480, src_frames = fs\<rparr> = 640"
  by code_simp

lemma spec_preview_count_example: "spec_preview_count 400 10 (fl (30000 / 1001)) = 300"
  by code_simp

lemma spec_preview_height_example: "spec_preview_height 640 480 854 = 360"
  by code_simp

text \<open>
  Claim C2 as the specification states it fails on a 29.97 fps source of 854 by 480 pixels
  with 400 frames and a preview of 10 seconds: 299 frames of 359 rows are written, where
  rounding gives 300 frames of 360 rows.
\<close>

theorem generate_preview_round_counterexample:
  "int (length (written (snd (generate_preview (\<lambda>k roi r c. 0) (\<lambda>f w h r c. 0)
      \<lparr>src_exists = True, src_opened = True, src_fps = fl (30000 / 1001),
       src_frame_count = 400, src_width = 854, src_height = 480,
       src_frames = replicate 400 (replicate 480 (replicate 854 (0 :: nat)))\<rparr>
      True Map.empty 15 10))))
    \<noteq> spec_preview_count 400 10 (fl (30000 / 1001))
   \<and> int (shape0 (hd (written (snd (generate_preview (\<lambda>k roi r c. 0) (\<lambda>f w h r c. 0)
      \<lparr>src_exists = True, src_opened = True, src_fps = fl (30000 / 1001),
       src_frame_count = 400, src_width = 854, src_height = 480,
       src_frames = replicate 400 (replicate 480 (replicate 854 (0 :: nat)))\<rparr>
      True Map.empty 15 10)))))
    \<noteq> spec_preview_height 640 480 854"
proof -
  let ?S = "\<lparr>src_exists = True, src_opened = True, src_fps = fl (30000 / 1001),
       src_frame_count = 400, src_width = 854, src_height = 480,
       src_frames = replicate 400 (replicate 480 (replicate 854 (0 :: nat)))\<rparr>"
  let ?w = "written (snd (generate_preview (\<lambda>k roi r c. 0) (\<lambda>f w h r c. 0) ?S True
              Map.empty 15 10))"
  have o: "src_opened ?S" by simp
  have p: "0 < preview_width ?S" "0 < preview_height ?S"
    by (simp_all add: preview_width_example preview_height_example)
  note g = generate_preview_opened[OF o p, of "\<lambda>k roi r c. 0" "\<lambda>f w h r c. 0" Map.empty 15 10]
  have l: "length ?w = 299"
    by (simp add: g preview_frames_example)
  then have "?w \<noteq> []" by auto
  then have "hd ?w \<in> set ?w" by simp
  moreover have "\<forall>f \<in> set ?w. shape0 f = 359"
    by (auto simp add: g shape0_def preview_height_example)
  ultimately have h: "shape0 (hd ?w) = 359" by blast
  show ?thesis
    unfolding l h spec_preview_count_example spec_preview_height_example by simp
qed

theorem generate_preview_frame_count_and_size_witness:
  "src_opened \<lparr>src_exists = True, src_opened = True, src_fps = 25, src_frame_count = 3,
      src_width = 2, src_height = 2, src_frames = [[[1, 2], [3, 4]], [[5, 6], [7, 8 :: nat]]]\<rparr>
   \<and> 0 < preview_width \<lparr>src_exists = True, src_opened = True, src_fps = 25, src_frame_count = 3,
      src_width = 2, src_height = 2, src_frames = [[[1, 2], [3, 4]], [[5, 6], [7, 8 :: nat]]]\<rparr>
   \<and> 0 < preview_height \<lparr>src_exists = True, src_opened = True, src_fps = 25, src_frame_count = 3,
      src_width = 2, src_height = 2, src_frames = [[[1, 2], [3, 4]], [[5, 6], [7, 8 :: nat]]]\<rparr>
   \<and> int (length (written (snd (generate_preview (\<lambda>k roi r c. 0) (\<lambda>f w h r c. f ! r ! c)
      \<lparr>src_exists = True, src_opened = True, src_fps = 25, src_frame_count = 3,
       src_width = 2, src_height = 2, src_frames = [[[1, 2], [3, 4]], [[5, 6], [7, 8 :: nat]]]\<rparr>
      True Map.empty 15 10)))) = 2"
proof -
  let ?S = "\<lparr>src_exists = True, src_opened = True, src_fps = 25, src_frame_count = 3,
      src_width = 2, src_height = 2, src_frames = [[[1, 2], [3, 4]], [[5, 6], [7, 8 :: nat]]]\<rparr>"
  have o: "src_opened ?S" by simp
  have p: "0 < preview_width ?S" by code_simp
  have q: "0 < preview_height ?S" by code_simp
  have n: "py_int (fl (of_int 10 * src_fps ?S)) = 250" by code_simp
  from generate_preview_frame_count_and_size[OF o p q, of "\<lambda>k roi r c. 0" "\<lambda>f w h r c. f ! r ! c"
      Map.empty 15 10] o p q
  show ?thesis
    unfolding n by simp
qed

section \<open>Properties of the schedule lookup\<close>

lemma digit_char_inj:
  assumes "a < 10" "b < 10" "digit_char a = digit_char b"
  shows "a = b"
proof -
  have d: "distinct ''0123456789''" by simp
  have l: "length ''0123456789'' = 10" by simp
  from assms show ?thesis
    unfolding digit_char_def using nth_eq_iff_index_eq[OF d, of a b] l by simp
qed

lemma str_nat_small: "n < 10 \<Longrightarrow> str_nat n = [digit_char n]"
  by (subst str_nat.simps) simp

lemma str_nat_big:
  "\<not> n < 10 \<Longrightarrow> str_nat n = str_nat (n div 10) @ [digit_char (n mod 10)]"
  by (subst str_nat.simps) simp

lemma str_nat_not_Nil: "str_nat n \<noteq> []"
  by (subst str_nat.simps) simp

lemma str_nat_inj: "str_nat a = str_nat b \<Longrightarrow> a = b"
proof (induction a arbitrary: b rule: str_nat.induct)
  case (1 n)
  show ?case
  proof (cases "n < 10")
    case small: True
    show ?thesis
    proof (cases "b < 10")
      case True
      with small "1.prems" show ?thesis
        by (simp add: str_nat_small digit_char_inj)
    next
      case False
      with small "1.prems" show ?thesis
        by (simp add: str_nat_small str_nat_big str_nat_not_Nil[symmetric])
    qed
  next
    case big: False
    show ?thesis
    proof (cases "b < 10")
      case True
      with big "1.prems" show ?thesis
        by (simp add: str_nat_small str_nat_big str_nat_not_Nil)
    next
      case False
      with big "1.prems"
      have p: "str_nat (n div 10) = str_nat (b div 10)"
        and q: "digit_char (n mod 10) = digit_char (b mod 10)"
        by (simp_all add: str_nat_big)
      from "1.IH"[OF big p] have "n div 10 = b div 10" .
      moreover from q have "n mod 10 = b mod 10"
        by (intro digit_char_inj) simp_all
      ultimately show ?thesis
        by (metis div_mult_mod_eq)
    qed
  qed
qed

lemma map_of_str_keyed:
  "map_of (map (\<lambda>(n, ms). (StrKey (str_nat n), ms)) sched) (StrKey (str_nat n)) = map_of sched n"
  by (induction sched) (auto dest: str_nat_inj)

lemma map_of_int_keyed:
  "map_of (map (\<lambda>(n, ms). (IntKey (int n), ms)) sched) (StrKey s) = None"
  by (induction sched) auto

lemma render_frame_cong:
  "get_masks md1 n = get_masks md2 n \<Longrightarrow> render_frame gb md1 s n f = render_frame gb md2 s n f"
  by (simp add: render_frame_def)

lemma preview_blur_cong:
  "get_masks md1 n = get_masks md2 n \<Longrightarrow> preview_blur gb md1 s n f = preview_blur gb md2 s n f"
  by (simp add: preview_blur_def)

lemma process_loop_cong:
  "(\<And>n. get_masks md1 n = get_masks md2 n) \<Longrightarrow>
   process_loop gb md1 s cb tf k fs st = process_loop gb md2 s cb tf k fs st"
proof (induction fs arbitrary: k st)
  case Nil
  show ?case by simp
next
  case (Cons f fs)
  have r: "render_frame gb md1 s k f = render_frame gb md2 s k f"
    by (rule render_frame_cong) (rule Cons.prems)
  have i: "process_loop gb md1 s cb tf (Suc k) fs st' = process_loop gb md2 s cb tf (Suc k) fs st'"
    for st'
    by (rule Cons.IH) (rule Cons.prems)
  show ?case
    unfolding process_loop.simps r Let_def i ..
qed

lemma preview_loop_cong:
  "(\<And>n. get_masks md1 n = get_masks md2 n) \<Longrightarrow>
   preview_loop gb rs md1 s so pw ph k todo fs st = preview_loop gb rs md2 s so pw ph k todo fs st"
proof (induction fs arbitrary: k todo st)
  case Nil
  then show ?case by (cases todo) simp_all
next
  case (Cons f fs)
  then show ?case
    by (cases todo) (simp_all add: Let_def preview_blur_cong[of md1 _ md2] split: sum.splits)
qed

text \<open>
  Claim C1, as the code has it.  Render and preview look a frame up under the string key
  \<^verbatim>\<open>str(n)\<close> only: a schedule written with string keys selects for frame \<open>n\<close> the list it
  stores for \<open>n\<close> (the empty list when it stores none), a schedule written with integer keys
  selects the empty list for every frame, and two schedules that agree on their string keys
  select the same lists and give the same render and the same preview.
\<close>

theorem schedule_lookup_by_string_key:
  "get_masks (str_keyed sched) n = (case map_of sched n of None \<Rightarrow> [] | Some ms \<Rightarrow> ms)
   \<and> get_masks (int_keyed sched) n = []
   \<and> ((\<forall>s. md1 (StrKey s) = md2 (StrKey s)) \<longrightarrow>
        get_masks md1 n = get_masks md2 n
        \<and> process_video gb src sink_opened md1 blur_strength callback
            = process_video gb src sink_opened md2 blur_strength callback
        \<and> generate_preview gb rs src sink_opened md1 blur_strength preview_duration
            = generate_preview gb rs src sink_opened md2 blur_strength preview_duration)"
proof -
  have a: "get_masks (str_keyed sched) n = (case map_of sched n of None \<Rightarrow> [] | Some ms \<Rightarrow> ms)"
    by (simp add: get_masks_def str_keyed_def map_of_str_keyed)
  have b: "get_masks (int_keyed sched) n = []"
    by (simp add: get_masks_def int_keyed_def map_of_int_keyed)
  have c: "get_masks md1 n = get_masks md2 n
        \<and> process_video gb src sink_opened md1 blur_strength callback
            = process_video gb src sink_opened md2 blur_strength callback
        \<and> generate_preview gb rs src sink_opened md1 blur_strength preview_duration
            = generate_preview gb rs src sink_opened md2 blur_strength preview_duration"
    if h: "\<forall>s. md1 (StrKey s) = md2 (StrKey s)"
  proof -
    from h have g: "get_masks md1 k = get_masks md2 k" for k
      by (simp add: get_masks_def)
    show ?thesis
      by (simp add: g process_video_def generate_preview_def
          process_loop_cong[of md1 md2, OF g] preview_loop_cong[of md1 md2, OF g])
  qed
  from a b c show ?thesis by blast
qed

text \<open>
  Claim C1 as the specification states it fails: the schedule that maps the integer key 3
  to one region selects no region for frame 3, the schedule that maps the string key
  \<^verbatim>\<open>'3'\<close> to it selects that region.
\<close>

theorem schedule_integer_key_counterexample:
  "get_masks (int_keyed [(3, [\<lparr>mask_x = 40, mask_y = 40, mask_width = 20, mask_height = 20,
                                 mask_confidence = Some 1\<rparr>])]) 3
   \<noteq> get_masks (str_keyed [(3, [\<lparr>mask_x = 40, mask_y = 40, mask_width = 20, mask_height = 20,
                                 mask_confidence = Some 1\<rparr>])]) 3"
  by code_simp

theorem schedule_lookup_by_string_key_witness:
  "(\<forall>s. ((str_keyed [(1, [\<lparr>mask_x = 0, mask_y = 0, mask_width = 1, mask_height = 1,
                           mask_confidence = None\<rparr>])])
           (IntKey 0 \<mapsto> [\<lparr>mask_x = 1, mask_y = 0, mask_width = 1, mask_height = 1,
                           mask_confidence = None\<rparr>])) (StrKey s)
        = str_keyed [(1, [\<lparr>mask_x = 0, mask_y = 0, mask_width = 1, mask_height = 1,
                           mask_confidence = None\<rparr>])] (StrKey s))
   \<and> process_video (\<lambda>k roi r c. 0)
       \<lparr>src_exists = True, src_opened = True, src_fps = 25, src_frame_count = 2, src_width = 2,
        src_height = 1, src_frames = [[[1, 2]], [[3, 4 :: nat]]]\<rparr> True
       ((str_keyed [(1, [\<lparr>mask_x = 0, mask_y = 0, mask_width = 1, mask_height = 1,
                           mask_confidence = None\<rparr>])])
           (IntKey 0 \<mapsto> [\<lparr>mask_x = 1, mask_y = 0, mask_width = 1, mask_height = 1,
                           mask_confidence = None\<rparr>])) 15 False
     = process_video (\<lambda>k roi r c. 0)
       \<lparr>src_exists = True, src_opened = True, src_fps = 25, src_frame_count = 2, src_width = 2,
        src_height = 1, src_frames = [[[1, 2]], [[3, 4 :: nat]]]\<rparr> True
       (str_keyed [(1, [\<lparr>mask_x = 0, mask_y = 0, mask_width = 1, mask_height = 1,
                           mask_confidence = None\<rparr>])]) 15 False"
proof -
  have h: "\<forall>s. ((str_keyed [(1, [\<lparr>mask_x = 0, mask_y = 0, mask_width = 1, mask_height = 1,
                           mask_confidence = None\<rparr>])])
           (IntKey 0 \<mapsto> [\<lparr>mask_x = 1, mask_y = 0, mask_width = 1, mask_height = 1,
                           mask_confidence = None\<rparr>])) (StrKey s)
        = str_keyed [(1, [\<lparr>mask_x = 0, mask_y = 0, mask_width = 1, mask_height = 1,
                           mask_confidence = None\<rparr>])] (StrKey s)"
    by simp
  from h schedule_lookup_by_string_key
    [of "[]" 0
      "(str_keyed [(1, [\<lparr>mask_x = 0, mask_y = 0, mask_width = 1, mask_height = 1,
                           mask_confidence = None\<rparr>])])
           (IntKey 0 \<mapsto> [\<lparr>mask_x = 1, mask_y = 0, mask_width = 1, mask_height = 1,
                           mask_confidence = None\<rparr>])"
      "str_keyed [(1, [\<lparr>mask_x = 0, mask_y = 0, mask_width = 1, mask_height = 1,
                           mask_confidence = None\<rparr>])]"]
  show ?thesis by blast
qed

section \<open>Properties of the analysis\<close>

lemma str_nat_eq_iff: "str_nat a = str_nat b \<longleftrightarrow> a = b"
  by (auto dest: str_nat_inj)

lemma analyze_loop_lookup:
  "map_of (analyze_loop det k fs fbf) (str_nat n) =
     (if k \<le> n \<and> n < k + length fs \<and> detect_faces det (fs ! (n - k)) \<noteq> []
      then Some (detect_faces det (fs ! (n - k)))
      else map_of fbf (str_nat n))"
proof (induction fs arbitrary: k fbf)
  case Nil
  show ?case by auto
next
  case (Cons f fs)
  have u: "map_of (AList.update (str_nat k) v fbf) (str_nat n) =
             (if n = k then Some v else map_of fbf (str_nat n))" for v
    by (simp add: update_conv' str_nat_eq_iff)
  show ?case
  proof (cases "n \<le> k")
    case True
    then show ?thesis
      by (auto simp: Let_def Cons.IH update_conv' str_nat_eq_iff)
  next
    case False
    then have e: "(f # fs) ! (n - k) = fs ! (n - Suc k)"
      by (simp add: nth_Cons')
    from False show ?thesis
      unfolding e by (auto simp: Let_def Cons.IH update_conv' str_nat_eq_iff)
  qed
qed

text \<open>
  Claim C9.  When the detector call raises on a frame, \<^verbatim>\<open>detect_faces\<close> returns no face for
  that frame, in both modes.  \<^verbatim>\<open>analyze_video\<close> on a source that exists and opens returns a
  result, and in it every frame of the source has the entry of its own detection: the faces
  found in it under the key \<^verbatim>\<open>str(n)\<close>, or no entry when none were found or the detector
  raised.  So the frames after a failing frame are analysed as if it had not failed.
\<close>

theorem detector_failure_is_not_fatal:
  "(cnn_detector frame = Inl e \<longrightarrow> detect_faces (CNN cnn_detector) frame = [])
   \<and> (detector frame = Inl e \<longrightarrow> detect_faces (HOG detector) frame = [])
   \<and> (src_exists src \<and> src_opened src \<longrightarrow>
        (case analyze_video det src None of
           Inl err \<Rightarrow> False
         | Inr res \<Rightarrow>
             \<forall>n < length (src_frames src).
               map_of (faces_by_frame res) (str_nat n) =
                 (if detect_faces det (src_frames src ! n) = [] then None
                  else Some (detect_faces det (src_frames src ! n)))))"
  by (auto simp: detect_faces_def analyze_video_def Let_def analyze_loop_lookup)

theorem detector_failure_is_not_fatal_witness:
  "(\<lambda>f. if f = [[0, 0, 0], [0, 0, 0 :: nat]] then Inl DetectorError
          else Inr [\<lparr>rect_left = 1, rect_top = 0, rect_width = 1, rect_height = 1\<rparr>])
      [[0, 0, 0], [0, 0, 0]] = Inl DetectorError
   \<and> detect_faces
       (HOG (\<lambda>f. if f = [[0, 0, 0], [0, 0, 0 :: nat]] then Inl DetectorError
                  else Inr [\<lparr>rect_left = 1, rect_top = 0, rect_width = 1, rect_height = 1\<rparr>]))
       [[0, 0, 0], [0, 0, 0]] = []
   \<and> analyze_video
       (HOG (\<lambda>f. if f = [[0, 0, 0], [0, 0, 0 :: nat]] then Inl DetectorError
                  else Inr [\<lparr>rect_left = 1, rect_top = 0, rect_width = 1, rect_height = 1\<rparr>]))
       \<lparr>src_exists = True, src_opened = True, src_fps = 25, src_frame_count = 50,
        src_width = 3, src_height = 2,
        src_frames = [[[7, 7, 7], [7, 7, 7]], [[0, 0, 0], [0, 0, 0]], [[7, 7, 7], [7, 7, 7]]]\<rparr>
       None
     = Inr \<lparr>result_video_info =
              \<lparr>info_fps = 25, info_total_frames = 50, info_duration = 2, info_width = 3,
               info_height = 2\<rparr>,
            faces_by_frame =
              [(''0'', [\<lparr>x = 0, y = 0, width = 1, height = 1, confidence = 1\<rparr>]),
               (''2'', [\<lparr>x = 0, y = 0, width = 1, height = 1, confidence = 1\<rparr>])],
            total_analyzed_frames = 2\<rparr>
   \<and> map_of [(''0'', [\<lparr>x = 0, y = 0, width = 1, height = 1, confidence = 1\<rparr>]),
             (''2'', [\<lparr>x = 0, y = 0, width = 1, height = 1, confidence = 1\<rparr>])] (str_nat 2)
     = Some (detect_faces
       (HOG (\<lambda>f. if f = [[0, 0, 0], [0, 0, 0 :: nat]] then Inl DetectorError
                  else Inr [\<lparr>rect_left = 1, rect_top = 0, rect_width = 1, rect_height = 1\<rparr>]))
       [[7, 7, 7], [7, 7, 7]])"
proof -
  let ?D = "\<lambda>f. if f = [[0, 0, 0], [0, 0, 0 :: nat]] then Inl DetectorError
          else Inr [\<lparr>rect_left = 1, rect_top = 0, rect_width = 1, rect_height = 1\<rparr>]"
  let ?S = "\<lparr>src_exists = True, src_opened = True, src_fps = 25, src_frame_count = 50,
        src_width = 3, src_height = 2,
        src_frames = [[[7, 7, 7], [7, 7, 7]], [[0, 0, 0], [0, 0, 0]], [[7, 7, 7], [7, 7, 7 :: nat]]]\<rparr>"
  have d: "detect_faces (HOG ?D) [[7, 7, 7], [7, 7, 7]]
             = [\<lparr>x = 0, y = 0, width = 1, height = 1, confidence = 1\<rparr>]"
    by code_simp
  have b0: "detect_faces (HOG ?D) [[0, 0, 0], [0, 0, 0]] = []"
    by (simp add: detect_faces_def)
  have two: "fl 2 = 2"
    by code_simp
  have a: "analyze_video (HOG ?D) ?S None
     = Inr \<lparr>result_video_info =
              \<lparr>info_fps = 25, info_total_frames = 50, info_duration = 2, info_width = 3,
               info_height = 2\<rparr>,
            faces_by_frame =
              [(''0'', [\<lparr>x = 0, y = 0, width = 1, height = 1, confidence = 1\<rparr>]),
               (''2'', [\<lparr>x = 0, y = 0, width = 1, height = 1, confidence = 1\<rparr>])],
            total_analyzed_frames = 2\<rparr>"
    by (simp add: analyze_video_def Let_def d b0 two str_nat_small digit_char_def)
  have f: "?D [[0, 0, 0], [0, 0, 0]] = Inl DetectorError"
    by simp
  note t = detector_failure_is_not_fatal
    [where detector = ?D and frame = "[[0, 0, 0], [0, 0, 0]]" and e = DetectorError
       and src = ?S and det = "HOG ?D"]
  have b: "detect_faces (HOG ?D) [[0, 0, 0], [0, 0, 0]] = []"
    using t[THEN conjunct2, THEN conjunct1] f by (rule mp)
  from t[THEN conjunct2, THEN conjunct2] have "\<forall>n < length (src_frames ?S).
               map_of [(''0'', [\<lparr>x = 0, y = 0, width = 1, height = 1, confidence = 1\<rparr>]),
                 (''2'', [\<lparr>x = 0, y = 0, width = 1, height = 1, confidence = 1\<rparr>])] (str_nat n) =
                 (if detect_faces (HOG ?D) (src_frames ?S ! n) = [] then None
                  else Some (detect_faces (HOG ?D) (src_frames ?S ! n)))"
    unfolding a by simp
  then have c: "map_of [(''0'', [\<lparr>x = 0, y = 0, width = 1, height = 1, confidence = 1\<rparr>]),
                 (''2'', [\<lparr>x = 0, y = 0, width = 1, height = 1, confidence = 1\<rparr>])] (str_nat 2) =
                 (if detect_faces (HOG ?D) (src_frames ?S ! 2) = [] then None
                  else Some (detect_faces (HOG ?D) (src_frames ?S ! 2)))"
    by simp
  have g: "src_frames ?S ! 2 = [[7, 7, 7], [7, 7, 7]]"
    by simp
  from c have c': "map_of [(''0'', [\<lparr>x = 0, y = 0, width = 1, height = 1, confidence = 1\<rparr>]),
                 (''2'', [\<lparr>x = 0, y = 0, width = 1, height = 1, confidence = 1\<rparr>])] (str_nat 2) =
                 Some (detect_faces (HOG ?D) [[7, 7, 7], [7, 7, 7]])"
    unfolding g d by simp
  show ?thesis
    by (intro conjI) (fact f b a c')+
qed

end
